theory Spec2Isabelle
  imports Main "HOL-Library.AList"
begin

section \<open>Python list and dictionary operations used by the program\<close>

text \<open>
  \<^verbatim>\<open>list.insert(i, x)\<close>: a negative index counts from the end, and an index outside
  the list is clamped to its nearest end; the call never raises.
\<close>

definition py_insert :: "int \<Rightarrow> 'a \<Rightarrow> 'a list \<Rightarrow> 'a list" where
  "py_insert i x xs =
     (let n = int (length xs);
          j = (if i < 0 then max 0 (n + i) else min i n)
      in take (nat j) xs @ x # drop (nat j) xs)"

text \<open>
  \<^verbatim>\<open>d.get(key, default)\<close> on a dictionary entry that may be absent: the entry is an
  option, \<open>None\<close> for a missing key.
\<close>

definition dict_get :: "'a option \<Rightarrow> 'a \<Rightarrow> 'a" where
  "dict_get entry dflt = (case entry of None \<Rightarrow> dflt | Some v \<Rightarrow> v)"

text \<open>
  \<^verbatim>\<open>range(start, stop, step)\<close> for a positive step (the only use in the program is
  \<^verbatim>\<open>range(0, 101, 10)\<close>).
\<close>

function py_range :: "int \<Rightarrow> int \<Rightarrow> int \<Rightarrow> int list" where
  "py_range start stop step =
     (if 0 < step \<and> start < stop then start # py_range (start + step) stop step else [])"
  by pat_completeness auto
termination
  by (relation "measure (\<lambda>(start, stop, step). nat (stop - start))") auto

declare py_range.simps [simp del]

text \<open>
  \<^verbatim>\<open>os.path.basename\<close> and \<^verbatim>\<open>os.path.dirname\<close> as \<^verbatim>\<open>posixpath\<close> defines them: the
  path is cut after its last slash; \<^verbatim>\<open>dirname\<close> also strips the trailing slashes of
  the head unless the head consists of slashes only.
\<close>

definition basename :: "string \<Rightarrow> string" where
  "basename p = rev (takeWhile (\<lambda>c. c \<noteq> CHR ''/'') (rev p))"

definition dirname :: "string \<Rightarrow> string" where
  "dirname p =
     (let head = rev (dropWhile (\<lambda>c. c \<noteq> CHR ''/'') (rev p))
      in if head \<noteq> [] \<and> head \<noteq> replicate (length head) CHR ''/''
         then rev (dropWhile (\<lambda>c. c = CHR ''/'') (rev head))
         else head)"


section \<open>Tasks and the run configuration\<close>

datatype status = Pending | Converting | Completed | Failed

text \<open>
  \<^verbatim>\<open>class ConversionTask\<close>. The two time stamps are readings of \<^verbatim>\<open>time.time()\<close>; the
  program only stores and subtracts them, so a reading is a number of clock ticks.
\<close>

record task =
  input_path :: string
  output_path :: string
  status :: status
  progress :: int
  error_message :: string
  start_time :: "nat option"
  end_time :: "nat option"
  file_size :: nat

text \<open>
  The \<^verbatim>\<open>config\<close> dictionary of \<^verbatim>\<open>ConversionWorker\<close>, read only through
  \<^verbatim>\<open>config.get(key, default)\<close>. Each key may be absent. The key \<^verbatim>\<open>normalize\<close> is the
  field \<open>normalize_flag\<close>. \<^verbatim>\<open>target_db\<close> is a float that
  the worker only formats into a string, so it is carried as the text \<^verbatim>\<open>str()\<close> gives
  for it (\<^verbatim>\<open>-1.0\<close> for the default).
\<close>

record config =
  bitrate :: "string option"
  preserve_metadata :: "bool option"
  extract_cover :: "bool option"
  normalize_flag :: "bool option"
  target_db :: "string option"


section \<open>Building the FFmpeg command\<close>

text \<open>The command list as \<^verbatim>\<open>_convert_single\<close> first writes it.\<close>

definition base_cmd :: "task \<Rightarrow> config \<Rightarrow> string list" where
  "base_cmd t cfg =
     [''ffmpeg'', ''-i'', input_path t,
      ''-codec:a'', ''libmp3lame'',
      ''-b:a'', dict_get (bitrate cfg) ''192k'',
      ''-q:a'', ''2'',
      ''-y'', output_path t]"

text \<open>The four \<^verbatim>\<open>cmd.insert(-1, ...)\<close> calls of the metadata branch, in order.\<close>

definition insert_metadata_flags :: "string list \<Rightarrow> string list" where
  "insert_metadata_flags cmd =
     py_insert (-1) ''3''
       (py_insert (-1) ''-id3v2_version''
         (py_insert (-1) ''0''
           (py_insert (-1) ''-map_metadata'' cmd)))"

text \<open>The two \<^verbatim>\<open>cmd.insert(-2, ...)\<close> calls of the normalisation branch, in order.\<close>

definition insert_normalize_flags :: "string \<Rightarrow> string list \<Rightarrow> string list" where
  "insert_normalize_flags db cmd =
     py_insert (-2) (''volume='' @ db @ ''dB'') (py_insert (-2) ''-af'' cmd)"

definition build_cmd :: "task \<Rightarrow> config \<Rightarrow> string list" where
  "build_cmd t cfg =
     (let cmd = base_cmd t cfg;
          cmd = (if dict_get (preserve_metadata cfg) True
                 then insert_metadata_flags cmd else cmd);
          cmd = (if dict_get (normalize_flag cfg) False
                 then insert_normalize_flags (dict_get (target_db cfg) ''-1.0'') cmd else cmd)
      in cmd)"

text \<open>\<open>followed_by a b xs\<close>: somewhere in \<open>xs\<close> the element \<open>a\<close> stands immediately before \<open>b\<close>.\<close>

fun followed_by :: "'a \<Rightarrow> 'a \<Rightarrow> 'a list \<Rightarrow> bool" where
  "followed_by a b (x # y # zs) = ((x = a \<and> y = b) \<or> followed_by a b (y # zs))"
| "followed_by a b [x] = False"
| "followed_by a b [] = False"


section \<open>The worker thread\<close>

text \<open>
  What the worker does, in the order it does it: the signals it emits, the fields of the
  task objects it writes, and the calls it makes to the operating system and to its own
  helpers. \<open>Subprocess_run i cmd\<close> is \<^verbatim>\<open>subprocess.run(cmd, ...)\<close> for the command built
  for the task at position \<open>i\<close>. \<open>Extract_cover_art\<close> and \<open>Preserve_metadata\<close> stand for the
  whole call of the helper of that name: each helper catches every exception inside
  itself, so the call always returns.
\<close>

datatype action =
    Emit_conversion_started nat
  | Emit_progress_updated nat int int
  | Emit_task_completed nat bool string
  | Emit_log_message string string
  | Set_status nat status
  | Set_error_message nat string
  | Set_start_time nat nat
  | Set_end_time nat nat
  | Makedirs string
  | Subprocess_run nat "string list"
  | Extract_cover_art string string
  | Preserve_metadata string string

text \<open>How \<^verbatim>\<open>subprocess.run\<close> ends: the process exits with a return code and its error
  output, or the call itself raises (the text is \<^verbatim>\<open>str(e)\<close>).\<close>

datatype proc_outcome = Exited int string | Launch_failed string

text \<open>
  What the surroundings do during the loop iteration of one task.

  \<open>stop_before\<close>: the user interface thread calls \<^verbatim>\<open>stop()\<close> during this iteration, just
  before the worker reads \<^verbatim>\<open>is_running\<close> for the \<open>c\<close>-th time in it. Read 0 is the test at
  the head of the loop in \<^verbatim>\<open>run\<close>, reads 1 to 11 are the tests of the progress loop, and
  a larger number is a call after the last of them (while the external command runs, or
  later in the iteration). \<open>None\<close>: no call during this iteration.

  \<open>makedirs_error\<close>: \<^verbatim>\<open>os.makedirs\<close> raises, with this text. \<open>ffmpeg\<close>: how the external
  command ends. \<open>clock_start\<close>, \<open>clock_end\<close>: the two readings of \<^verbatim>\<open>time.time()\<close>.
\<close>

record task_env =
  stop_before :: "nat option"
  makedirs_error :: "string option"
  ffmpeg :: proc_outcome
  clock_start :: nat
  clock_end :: nat

text \<open>The value the worker reads from \<^verbatim>\<open>is_running\<close> at read \<open>c\<close> of an iteration that
  began with the flag at \<open>running\<close>. \<^verbatim>\<open>stop()\<close> only ever clears the flag.\<close>

definition is_running_at :: "bool \<Rightarrow> nat option \<Rightarrow> nat \<Rightarrow> bool" where
  "is_running_at running stop c =
     (running \<and> (case stop of None \<Rightarrow> True | Some s \<Rightarrow> c < s))"

text \<open>
  The simulated progress loop of \<^verbatim>\<open>_convert_single\<close>; \<open>c\<close> numbers the next read of the
  flag. The result says whether the loop left through \<^verbatim>\<open>return False, "Conversion
  cancelled"\<close>. The task number in the signal is \<^verbatim>\<open>self.tasks.index(task)\<close>; the tasks
  of the list are distinct objects compared by identity, so it is the position of the
  task in the list.
\<close>

fun progress_loop :: "(nat \<Rightarrow> bool) \<Rightarrow> nat \<Rightarrow> nat \<Rightarrow> int list \<Rightarrow> action list \<times> bool" where
  "progress_loop rd idx c [] = ([], False)"
| "progress_loop rd idx c (p # ps) =
     (if \<not> rd c then ([], True)
      else let (acts, cancelled) = progress_loop rd idx (Suc c) ps
           in (Emit_progress_updated idx p 0 # acts, cancelled))"

text \<open>
  \<^verbatim>\<open>_convert_single\<close>: the actions performed and the pair \<^verbatim>\<open>(success, message)\<close> returned.
  Every exception raised inside is caught by the method's own handler and becomes a
  returned failure, so the method always returns.
\<close>

definition convert_single ::
  "bool \<Rightarrow> config \<Rightarrow> task_env \<Rightarrow> (nat \<Rightarrow> bool) \<Rightarrow> nat \<Rightarrow> task \<Rightarrow> action list \<times> bool \<times> string" where
  "convert_single HAS_MUTAGEN cfg env rd idx t =
     (case makedirs_error env of
        Some e \<Rightarrow> ([Makedirs (dirname (output_path t))], False, ''Conversion error: '' @ e)
      | None \<Rightarrow>
         (let cmd = build_cmd t cfg;
              before = [Makedirs (dirname (output_path t)),
                        Emit_log_message (''Converting: '' @ basename (input_path t)) ''info''];
              (ticks, cancelled) = progress_loop rd idx 1 (py_range 0 101 10)
          in if cancelled then (before @ ticks, False, ''Conversion cancelled'')
             else
               (case ffmpeg env of
                  Launch_failed e \<Rightarrow>
                    (before @ ticks @ [Subprocess_run idx cmd], False, ''Conversion error: '' @ e)
                | Exited returncode stderr \<Rightarrow>
                    if returncode = 0
                    then (before @ ticks @ [Subprocess_run idx cmd]
                            @ (if dict_get (extract_cover cfg) True \<and> HAS_MUTAGEN
                               then [Extract_cover_art (input_path t) (output_path t)] else [])
                            @ (if dict_get (preserve_metadata cfg) True \<and> HAS_MUTAGEN
                               then [Preserve_metadata (input_path t) (output_path t)] else []),
                          True, ''Conversion successful'')
                    else (before @ ticks @ [Subprocess_run idx cmd],
                          False, ''FFmpeg error: '' @ take 200 stderr))))"

text \<open>
  One iteration of the loop of \<^verbatim>\<open>run\<close> after the test at its head. Since
  \<^verbatim>\<open>_convert_single\<close> returns in every case, the \<^verbatim>\<open>except\<close> branch of \<^verbatim>\<open>run\<close> is never
  entered.
\<close>

definition task_block ::
  "bool \<Rightarrow> config \<Rightarrow> task_env \<Rightarrow> (nat \<Rightarrow> bool) \<Rightarrow> nat \<Rightarrow> task \<Rightarrow> action list" where
  "task_block HAS_MUTAGEN cfg env rd i t =
     (let (acts, success, message) = convert_single HAS_MUTAGEN cfg env rd i t
      in [Emit_conversion_started i,
          Set_status i Converting,
          Set_start_time i (clock_start env)]
         @ acts
         @ [Set_status i (if success then Completed else Failed),
            Set_error_message i (if \<not> success then message else []),
            Set_end_time i (clock_end env),
            Emit_task_completed i success message])"

text \<open>
  The loop of \<^verbatim>\<open>run\<close> from position \<open>i\<close> on, over the tasks not yet visited; \<open>running\<close> is
  the flag as the previous iteration left it.
\<close>

fun run_from ::
  "bool \<Rightarrow> config \<Rightarrow> (nat \<Rightarrow> task_env) \<Rightarrow> nat \<Rightarrow> bool \<Rightarrow> task list \<Rightarrow> action list" where
  "run_from HAS_MUTAGEN cfg env i running [] = []"
| "run_from HAS_MUTAGEN cfg env i running (t # ts) =
     (let rd = is_running_at running (stop_before (env i))
      in if \<not> rd 0 then []
         else task_block HAS_MUTAGEN cfg (env i) rd i t
              @ run_from HAS_MUTAGEN cfg env (Suc i) (running \<and> stop_before (env i) = None) ts)"

text \<open>\<^verbatim>\<open>ConversionWorker.run\<close>; the constructor sets \<^verbatim>\<open>is_running = True\<close>.\<close>

definition run :: "bool \<Rightarrow> config \<Rightarrow> (nat \<Rightarrow> task_env) \<Rightarrow> task list \<Rightarrow> action list" where
  "run HAS_MUTAGEN cfg env ts = run_from HAS_MUTAGEN cfg env 0 True ts"

text \<open>
  The effect of one action on the task objects. The worker writes the status, the error
  message and the time stamps itself. \<^verbatim>\<open>progress_updated\<close> is connected to
  \<^verbatim>\<open>MainWindow._on_progress_updated\<close>, which calls \<^verbatim>\<open>update_progress\<close> of the widget of
  that task when \<^verbatim>\<open>task_id < len(self.progress_widgets)\<close>; there is one widget per task,
  and \<^verbatim>\<open>update_progress\<close> stores the value in \<^verbatim>\<open>task.progress\<close>. Signals are taken to be
  delivered in the order of emission, each before the worker's next action.
\<close>

fun apply_action :: "action \<Rightarrow> task list \<Rightarrow> task list" where
  "apply_action (Set_status i s) ts = ts[i := (ts ! i)\<lparr>status := s\<rparr>]"
| "apply_action (Set_error_message i m) ts = ts[i := (ts ! i)\<lparr>error_message := m\<rparr>]"
| "apply_action (Set_start_time i c) ts = ts[i := (ts ! i)\<lparr>start_time := Some c\<rparr>]"
| "apply_action (Set_end_time i c) ts = ts[i := (ts ! i)\<lparr>end_time := Some c\<rparr>]"
| "apply_action (Emit_progress_updated i p c) ts =
     (if i < length ts then ts[i := (ts ! i)\<lparr>progress := p\<rparr>] else ts)"
| "apply_action a ts = ts"

text \<open>The task list after a sequence of actions, and every task list on the way.\<close>

fun final :: "task list \<Rightarrow> action list \<Rightarrow> task list" where
  "final ts [] = ts"
| "final ts (a # as) = final (apply_action a ts) as"


text \<open>The progress values signalled for task \<open>i\<close>, in order.\<close>

fun progress_values :: "nat \<Rightarrow> action list \<Rightarrow> int list" where
  "progress_values i [] = []"
| "progress_values i (Emit_progress_updated j p c # as) =
     (if j = i then p # progress_values i as else progress_values i as)"
| "progress_values i (a # as) = progress_values i as"

text \<open>
  \<open>about a\<close>: the task an action names, if it names one. \<open>effect i t a\<close>: what the action
  does to the task at position \<open>i\<close> when that task is \<open>t\<close>; \<open>apply_action\<close> changes the
  task it names in this way and no other task.
\<close>

fun about :: "action \<Rightarrow> nat option" where
  "about (Emit_conversion_started i) = Some i"
| "about (Emit_progress_updated i p c) = Some i"
| "about (Emit_task_completed i ok m) = Some i"
| "about (Set_status i s) = Some i"
| "about (Set_error_message i m) = Some i"
| "about (Set_start_time i c) = Some i"
| "about (Set_end_time i c) = Some i"
| "about (Subprocess_run i cmd) = Some i"
| "about a = None"

fun effect :: "nat \<Rightarrow> task \<Rightarrow> action \<Rightarrow> task" where
  "effect i t (Set_status j s) = (if j = i then t\<lparr>status := s\<rparr> else t)"
| "effect i t (Set_error_message j m) = (if j = i then t\<lparr>error_message := m\<rparr> else t)"
| "effect i t (Set_start_time j c) = (if j = i then t\<lparr>start_time := Some c\<rparr> else t)"
| "effect i t (Set_end_time j c) = (if j = i then t\<lparr>end_time := Some c\<rparr> else t)"
| "effect i t (Emit_progress_updated j p c) = (if j = i then t\<lparr>progress := p\<rparr> else t)"
| "effect i t a = t"

text \<open>
  One step in the life of a task, from \<open>t\<close> to \<open>t'\<close>, respects the progress rules when the
  progress does not fall while the task stays \<open>Converting\<close>, and is 100 when the task
  becomes \<open>Completed\<close>. \<open>task_trace_ok i t as\<close>: every step of the actions \<open>as\<close> respects
  them for the task at position \<open>i\<close>, which is \<open>t\<close> before the first action.
\<close>

definition step_ok :: "task \<Rightarrow> task \<Rightarrow> bool" where
  "step_ok t t' =
     ((status t = Converting \<and> status t' = Converting \<longrightarrow> progress t \<le> progress t') \<and>
      (status t \<noteq> Completed \<and> status t' = Completed \<longrightarrow> progress t' = 100))"


text \<open>The surroundings let the conversion of a task succeed: the output directory can be
  made and the external command exits with code 0.\<close>

definition conversion_succeeds :: "task_env \<Rightarrow> bool" where
  "conversion_succeeds env =
     (makedirs_error env = None \<and>
      (case ffmpeg env of Exited returncode stderr \<Rightarrow> returncode = 0 | Launch_failed e \<Rightarrow> False))"

text \<open>
  Sample data for concrete runs: two tasks as \<^verbatim>\<open>_start_conversion\<close> hands them to the
  worker, the configuration it builds (bit rate 192k, metadata kept, no cover art,
  \<^verbatim>\<open>normalize\<close> always \<^verbatim>\<open>False\<close>), and surroundings in which the conversion succeeds, the
  external command fails, the output directory cannot be made, or \<^verbatim>\<open>stop()\<close> is called.
\<close>

definition task_a :: task where
  "task_a = \<lparr>input_path = ''/videos/a.mp4'', output_path = ''/music/a.mp3'',
              status = Pending, progress = 0, error_message = [],
              start_time = None, end_time = None, file_size = 500000\<rparr>"

definition task_b :: task where
  "task_b = \<lparr>input_path = ''/videos/b.mp4'', output_path = ''/music/b.mp3'',
              status = Pending, progress = 0, error_message = [],
              start_time = None, end_time = None, file_size = 300000\<rparr>"

definition run_config :: config where
  "run_config = \<lparr>bitrate = Some ''192k'', preserve_metadata = Some True,
                  extract_cover = Some False, normalize_flag = Some False,
                  target_db = Some ''-1.0''\<rparr>"

definition env_success :: task_env where
  "env_success = \<lparr>stop_before = None, makedirs_error = None, ffmpeg = Exited 0 [],
                   clock_start = 0, clock_end = 3\<rparr>"

definition env_codec_error :: task_env where
  "env_codec_error = env_success\<lparr>ffmpeg := Exited 1 ''codec error''\<rparr>"

definition env_no_directory :: task_env where
  "env_no_directory = env_success\<lparr>makedirs_error := Some ''Permission denied''\<rparr>"

definition env_stop :: "nat \<Rightarrow> task_env" where
  "env_stop c = env_success\<lparr>stop_before := Some c\<rparr>"


section \<open>The task list of the main window\<close>

datatype py_error = ValueError | TypeError | AttributeError | OSError

text \<open>
  What the program asks of the operating system and of \<^verbatim>\<open>pathlib\<close> when files are added.

  \<open>getsize p\<close>: the size in bytes of what is at path \<open>p\<close>, \<open>None\<close> when
  \<^verbatim>\<open>os.path.exists(p)\<close> is false. \<open>with_suffix_mp3 p\<close>: \<^verbatim>\<open>str(Path(p).with_suffix('.mp3'))\<close>,
  \<open>None\<close> when \<^verbatim>\<open>with_suffix\<close> raises \<^verbatim>\<open>ValueError\<close> (a path with an empty name).
  \<open>video_extension p\<close>: \<^verbatim>\<open>os.path.splitext(p)[1].lower()\<close> is one of the seven video
  suffixes the drop handler accepts.
\<close>

record os_env =
  getsize :: "string \<Rightarrow> nat option"
  with_suffix_mp3 :: "string \<Rightarrow> string option"
  video_extension :: "string \<Rightarrow> bool"

text \<open>\<^verbatim>\<open>ConversionTask.__init__(input_path, output_path=None)\<close>.\<close>

definition ConversionTask_init :: "os_env \<Rightarrow> string \<Rightarrow> string option \<Rightarrow> py_error + task" where
  "ConversionTask_init os inp outp =
     (let t = \<lparr>input_path = inp, output_path = [], status = Pending, progress = 0,
                error_message = [], start_time = None, end_time = None,
                file_size = (case getsize os inp of Some n \<Rightarrow> n | None \<Rightarrow> 0)\<rparr>
      in case outp of
           Some out \<Rightarrow> Inr (t\<lparr>output_path := out\<rparr>)
         | None \<Rightarrow>
             (case with_suffix_mp3 os inp of
                None \<Rightarrow> Inl ValueError
              | Some out \<Rightarrow> Inr (t\<lparr>output_path := out\<rparr>)))"

text \<open>
  The part of \<^verbatim>\<open>MainWindow\<close> that holds and guards the task list. \<open>file_list\<close> is the list
  widget, each item given by its \<^verbatim>\<open>UserRole\<close> data (the file path); \<open>tasks\<close> is
  \<^verbatim>\<open>self.tasks\<close>; the three flags say whether the buttons Add Files, Add Folder and Clear
  List are enabled; \<open>worker_running\<close> says that a worker thread is running.
\<close>

record main_window =
  file_list :: "string list"
  tasks :: "task list"
  add_files_btn_enabled :: bool
  add_folder_btn_enabled :: bool
  clear_list_btn_enabled :: bool
  worker_running :: bool

text \<open>The window as \<^verbatim>\<open>__init__\<close> leaves it.\<close>

definition initial_window :: main_window where
  "initial_window = \<lparr>file_list = [], tasks = [], add_files_btn_enabled = True,
       add_folder_btn_enabled = True, clear_list_btn_enabled = True, worker_running = False\<rparr>"

text \<open>
  \<^verbatim>\<open>_add_file_to_list\<close>. The method returns nothing; the outcome tells its three ways out
  apart: the early \<^verbatim>\<open>return\<close> for a path that is already the data of a list item, the
  normal end, and the exception of \<^verbatim>\<open>ConversionTask(file_path)\<close>, which leaves the new list
  item behind.
\<close>

datatype add_outcome = Already_listed | Appended | Raised py_error

definition add_file_to_list :: "os_env \<Rightarrow> string \<Rightarrow> main_window \<Rightarrow> add_outcome \<times> main_window" where
  "add_file_to_list os file_path mw =
     (if file_path \<in> set (file_list mw) then (Already_listed, mw)
      else let mw1 = mw\<lparr>file_list := file_list mw @ [file_path]\<rparr>
           in case ConversionTask_init os file_path None of
                Inl e \<Rightarrow> (Raised e, mw1)
              | Inr task \<Rightarrow> (Appended, mw1\<lparr>tasks := tasks mw1 @ [task]\<rparr>))"



text \<open>
  \<^verbatim>\<open>_clear_list\<close>; \<open>reply_yes\<close> is the answer to its question box. The method is connected
  to the Clear List button, to the menu action File > Clear List and to the tool bar
  action Clear List. A disabled button does not send \<^verbatim>\<open>clicked\<close>; the two actions are
  never disabled.
\<close>

definition clear_list :: "bool \<Rightarrow> main_window \<Rightarrow> main_window" where
  "clear_list reply_yes mw = (if reply_yes then mw\<lparr>file_list := [], tasks := []\<rparr> else mw)"

datatype clear_source = Clear_button | Clear_menu_action | Clear_toolbar_action

definition trigger_clear :: "clear_source \<Rightarrow> bool \<Rightarrow> main_window \<Rightarrow> main_window" where
  "trigger_clear source reply_yes mw =
     (case source of
        Clear_button \<Rightarrow> if clear_list_btn_enabled mw then clear_list reply_yes mw else mw
      | Clear_menu_action \<Rightarrow> clear_list reply_yes mw
      | Clear_toolbar_action \<Rightarrow> clear_list reply_yes mw)"

text \<open>
  \<^verbatim>\<open>_start_conversion\<close>, as far as the task list and its guards go. \<open>output_name p\<close> is the
  output path the method computes for the input path \<open>p\<close> from the output directory and
  the chosen format; \<open>makedirs_ok\<close> says that \<^verbatim>\<open>os.makedirs(output_dir)\<close> does not raise.
  With no task the method only shows a warning. The buttons are disabled before
  \<^verbatim>\<open>os.makedirs\<close> is called, so they stay disabled when it raises.
\<close>

definition start_conversion ::
  "(string \<Rightarrow> string) \<Rightarrow> bool \<Rightarrow> main_window \<Rightarrow> py_error + main_window" where
  "start_conversion output_name makedirs_ok mw =
     (if tasks mw = [] then Inr mw
      else let mw1 = mw\<lparr>add_files_btn_enabled := False, add_folder_btn_enabled := False,
                         clear_list_btn_enabled := False\<rparr>
           in if \<not> makedirs_ok then Inl OSError
              else Inr (mw1\<lparr>tasks := map (\<lambda>t. t\<lparr>output_path := output_name (input_path t)\<rparr>) (tasks mw1),
                            worker_running := True\<rparr>))"



text \<open>Sample data: a file system with one video of 500000 bytes, and the window after
  that video was added and a run was started.\<close>

definition sample_os :: os_env where
  "sample_os = \<lparr>getsize = (\<lambda>p. if p = ''/videos/a.mp4'' then Some 500000 else None),
                 with_suffix_mp3 = (\<lambda>p. Some (take (length p - 4) p @ ''.mp3'')),
                 video_extension = (\<lambda>p. True)\<rparr>"

definition sample_output_name :: "string \<Rightarrow> string" where
  "sample_output_name p = ''/music/'' @ take (length (basename p) - 4) (basename p) @ ''.mp3''"

definition window_with_a :: main_window where
  "window_with_a = snd (add_file_to_list sample_os ''/videos/a.mp4'' initial_window)"

definition running_window :: main_window where
  "running_window =
     (case start_conversion sample_output_name True window_with_a of
        Inr mw \<Rightarrow> mw | Inl e \<Rightarrow> window_with_a)"



section \<open>Saving and loading the settings\<close>

text \<open>
  The values JSON can hold, as \<^verbatim>\<open>json.load\<close> returns them: \<^verbatim>\<open>None\<close>, a \<^verbatim>\<open>bool\<close>, an \<^verbatim>\<open>int\<close>,
  a \<^verbatim>\<open>float\<close> (kept as its text; the program computes nothing with it), a \<^verbatim>\<open>str\<close>, a
  \<^verbatim>\<open>list\<close> and a \<^verbatim>\<open>dict\<close> with its items in order.
\<close>

datatype json =
    JNull
  | JBool bool
  | JInt int
  | JFloat string
  | JStr string
  | JArr "json list"
  | JObj "(string \<times> json) list"

text \<open>
  An \<^verbatim>\<open>AppConfig\<close> object is its instance dictionary \<^verbatim>\<open>__dict__\<close>: the attribute names
  with their values, in order of insertion. \<^verbatim>\<open>AppConfig()\<close> stores the nine fields of the
  dataclass with their defaults; \<open>converted_audio\<close> is what
  \<^verbatim>\<open>os.path.expanduser('~/ConvertedAudio')\<close> gives.
\<close>

type_synonym instance_dict = "(string \<times> json) list"

definition AppConfig_fields :: "string list" where
  "AppConfig_fields =
     [''default_bitrate'', ''default_format'', ''output_directory'', ''preserve_metadata'',
      ''extract_cover'', ''theme'', ''max_concurrent'', ''auto_clear_list'',
      ''notification_sound'']"

definition AppConfig :: "string \<Rightarrow> instance_dict" where
  "AppConfig converted_audio =
     [(''default_bitrate'', JStr ''192k''),
      (''default_format'', JStr ''mp3''),
      (''output_directory'', JStr converted_audio),
      (''preserve_metadata'', JBool True),
      (''extract_cover'', JBool True),
      (''theme'', JStr ''dark''),
      (''max_concurrent'', JInt 2),
      (''auto_clear_list'', JBool False),
      (''notification_sound'', JBool True)]"

text \<open>
  Besides its fields, every instance has the attributes of \<^verbatim>\<open>object\<close> and those that the
  class statement and the \<^verbatim>\<open>dataclass\<close> decorator add; these are the ones present in
  every Python version that has dataclasses. All of their names begin with an
  underscore.
\<close>

definition object_attrs :: "string list" where
  "object_attrs =
     [''__class__'', ''__dict__'', ''__weakref__'', ''__doc__'', ''__module__'',
      ''__dataclass_fields__'', ''__dataclass_params__'',
      ''__init__'', ''__repr__'', ''__eq__'', ''__hash__'', ''__str__'', ''__ne__'',
      ''__lt__'', ''__le__'', ''__gt__'', ''__ge__'', ''__new__'', ''__dir__'',
      ''__format__'', ''__sizeof__'', ''__reduce__'', ''__reduce_ex__'',
      ''__getattribute__'', ''__setattr__'', ''__delattr__'', ''__init_subclass__'',
      ''__subclasshook__'']"

text \<open>
  \<^verbatim>\<open>hasattr(self.config, key)\<close>: the name is in the instance dictionary, or it is found on
  the class (the fields are class attributes too, since each has a default).
\<close>

definition hasattr :: "instance_dict \<Rightarrow> string \<Rightarrow> bool" where
  "hasattr d key =
     (map_of d key \<noteq> None \<or> key \<in> set AppConfig_fields \<or> key \<in> set object_attrs)"

text \<open>
  \<^verbatim>\<open>setattr(self.config, key, value)\<close> for a value that came out of \<^verbatim>\<open>json.load\<close>.
  \<^verbatim>\<open>__class__\<close> accepts only a class and \<^verbatim>\<open>__dict__\<close> only a dictionary, which then
  replaces the instance dictionary; \<^verbatim>\<open>__weakref__\<close> cannot be written. Any other name is
  stored in the instance dictionary, in place when the name is already there and at the
  end otherwise.
\<close>

definition setattr :: "instance_dict \<Rightarrow> string \<Rightarrow> json \<Rightarrow> py_error + instance_dict" where
  "setattr d key v =
     (if key = ''__class__'' then Inl TypeError
      else if key = ''__dict__'' then (case v of JObj items \<Rightarrow> Inr items | _ \<Rightarrow> Inl TypeError)
      else if key = ''__weakref__'' then Inl AttributeError
      else Inr (AList.update key v d))"

text \<open>
  Reading a field, \<^verbatim>\<open>self.config.<name>\<close>: the instance dictionary first, then the class
  attribute, which holds the default.
\<close>

definition getattr :: "string \<Rightarrow> instance_dict \<Rightarrow> string \<Rightarrow> json option" where
  "getattr converted_audio d key =
     (case map_of d key of Some v \<Rightarrow> Some v | None \<Rightarrow> map_of (AppConfig converted_audio) key)"

text \<open>
  What is found at \<^verbatim>\<open>~/.mp4tomp3_config.json\<close>: no file, a file that cannot be opened or
  that \<^verbatim>\<open>json.load\<close> rejects, or a file from which \<^verbatim>\<open>json.load\<close> returns a value.
  \<^verbatim>\<open>json.dump\<close> followed by \<^verbatim>\<open>json.load\<close> returns the value that was written when it is
  built from strings, integers, booleans, lists and dictionaries with string keys.
\<close>

datatype settings_file = Missing | Unreadable | Parsed json

text \<open>
  The loop of \<^verbatim>\<open>_load_settings\<close> over \<^verbatim>\<open>data.items()\<close>. An exception of \<^verbatim>\<open>setattr\<close> is
  caught by the bare \<^verbatim>\<open>except\<close> around the whole loop: the items not yet visited are
  dropped and what was set before stays.
\<close>

fun load_items :: "(string \<times> json) list \<Rightarrow> instance_dict \<Rightarrow> instance_dict" where
  "load_items [] d = d"
| "load_items ((key, v) # items) d =
     (if hasattr d key
      then (case setattr d key v of Inl e \<Rightarrow> d | Inr d' \<Rightarrow> load_items items d')
      else load_items items d)"

text \<open>\<^verbatim>\<open>_load_settings\<close>; for a value that is not a dictionary \<^verbatim>\<open>data.items()\<close> raises, which
  the bare \<^verbatim>\<open>except\<close> catches.\<close>

definition load_settings :: "settings_file \<Rightarrow> instance_dict \<Rightarrow> instance_dict" where
  "load_settings file d =
     (case file of
        Missing \<Rightarrow> d
      | Unreadable \<Rightarrow> d
      | Parsed (JObj items) \<Rightarrow> load_items items d
      | Parsed other \<Rightarrow> d)"

text \<open>\<^verbatim>\<open>_save_settings\<close>; \<open>open_ok\<close> says that the file can be opened for writing. A failure
  is caught and leaves the file as it was.\<close>

definition save_settings :: "bool \<Rightarrow> instance_dict \<Rightarrow> settings_file \<Rightarrow> settings_file" where
  "save_settings open_ok d file = (if open_ok then Parsed (JObj d) else file)"

text \<open>
  A settings object is valid when its attributes are exactly the nine fields, in the
  order of the class, each with a value of the type the class declares for it.
\<close>

datatype field_type = T_str | T_bool | T_int

fun has_type :: "json \<Rightarrow> field_type \<Rightarrow> bool" where
  "has_type (JStr s) T_str = True"
| "has_type (JBool b) T_bool = True"
| "has_type (JInt n) T_int = True"
| "has_type v ty = False"

definition AppConfig_types :: "field_type list" where
  "AppConfig_types = [T_str, T_str, T_str, T_bool, T_bool, T_str, T_int, T_bool, T_bool]"

definition valid_settings :: "instance_dict \<Rightarrow> bool" where
  "valid_settings d =
     (map fst d = AppConfig_fields \<and> list_all2 has_type (map snd d) AppConfig_types)"

text \<open>A key of a settings document is plain when it is not the name of an attribute that
  every object has.\<close>

definition plain_key :: "string \<Rightarrow> bool" where
  "plain_key key = (key \<notin> set object_attrs)"

text \<open>Sample settings as the settings dialog can leave them.\<close>

definition sample_settings :: instance_dict where
  "sample_settings =
     [(''default_bitrate'', JStr ''320k''),
      (''default_format'', JStr ''flac''),
      (''output_directory'', JStr ''/srv/audio''),
      (''preserve_metadata'', JBool False),
      (''extract_cover'', JBool True),
      (''theme'', JStr ''light''),
      (''max_concurrent'', JInt 4),
      (''auto_clear_list'', JBool True),
      (''notification_sound'', JBool False)]"

section \<open>Facts about the Python operations\<close>

lemma dict_get_simps [simp]: "dict_get None d = d" "dict_get (Some v) d = v"
  by (simp_all add: dict_get_def)

lemma py_insert_end: "py_insert (-1) x (xs @ [y]) = xs @ [x, y]"
  by (simp add: py_insert_def)

lemma py_insert_end2: "py_insert (-2) x (xs @ [y, z]) = xs @ [x, y, z]"
  by (simp add: py_insert_def)

lemma py_insert_m1_Cons [simp]:
  "py_insert (-1) x [y] = [x, y]"
  "py_insert (-1) x (a # b # bs) = a # py_insert (-1) x (b # bs)"
  using py_insert_end [of x "[]" y] py_insert_end [of x "a # butlast (b # bs)" "last (b # bs)"]
    py_insert_end [of x "butlast (b # bs)" "last (b # bs)"]
  by (simp_all del: butlast.simps last.simps add: append_butlast_last_id [of "b # bs", simplified])

lemma py_insert_m2_Cons [simp]:
  "py_insert (-2) x [y, z] = [x, y, z]"
  "py_insert (-2) x (a # b # c # cs) = a # py_insert (-2) x (b # c # cs)"
proof -
  show "py_insert (-2) x [y, z] = [x, y, z]"
    using py_insert_end2 [of x "[]" y z] by simp
  obtain ys u v where split: "b # c # cs = ys @ [u, v]"
    by (metis append_butlast_last_id append_Cons append_Nil butlast.simps(2) list.distinct(1) append_assoc)
  show "py_insert (-2) x (a # b # c # cs) = a # py_insert (-2) x (b # c # cs)"
    using py_insert_end2 [of x "a # ys" u v] py_insert_end2 [of x ys u v] split by simp
qed

lemma py_range_0_101_10: "py_range 0 101 10 = [0, 10, 20, 30, 40, 50, 60, 70, 80, 90, 100]"
  by (simp add: py_range.simps)


section \<open>The FFmpeg command\<close>

text \<open>The command for each combination of the two switches but the last.\<close>

lemma build_cmd_plain:
  "\<not> dict_get (preserve_metadata cfg) True \<Longrightarrow> \<not> dict_get (normalize_flag cfg) False \<Longrightarrow>
   build_cmd t cfg = base_cmd t cfg"
  by (simp add: build_cmd_def)

lemma build_cmd_metadata_only:
  "dict_get (preserve_metadata cfg) True \<Longrightarrow> \<not> dict_get (normalize_flag cfg) False \<Longrightarrow>
   build_cmd t cfg =
     [''ffmpeg'', ''-i'', input_path t, ''-codec:a'', ''libmp3lame'',
      ''-b:a'', dict_get (bitrate cfg) ''192k'', ''-q:a'', ''2'', ''-y'',
      ''-map_metadata'', ''0'', ''-id3v2_version'', ''3'', output_path t]"
  by (simp add: build_cmd_def base_cmd_def insert_metadata_flags_def)

lemma build_cmd_normalize_only:
  "\<not> dict_get (preserve_metadata cfg) True \<Longrightarrow> dict_get (normalize_flag cfg) False \<Longrightarrow>
   build_cmd t cfg =
     [''ffmpeg'', ''-i'', input_path t, ''-codec:a'', ''libmp3lame'',
      ''-b:a'', dict_get (bitrate cfg) ''192k'', ''-q:a'', ''2'',
      ''-af'', ''volume='' @ dict_get (target_db cfg) ''-1.0'' @ ''dB'',
      ''-y'', output_path t]"
  by (simp add: build_cmd_def base_cmd_def insert_normalize_flags_def)

lemma build_cmd_both:
  "build_cmd t \<lparr>bitrate = b, preserve_metadata = Some True, extract_cover = e,
       normalize_flag = Some True, target_db = d\<rparr> =
     [''ffmpeg'', ''-i'', input_path t, ''-codec:a'', ''libmp3lame'',
      ''-b:a'', dict_get b ''192k'', ''-q:a'', ''2'', ''-y'',
      ''-map_metadata'', ''0'', ''-id3v2_version'',
      ''-af'', ''volume='' @ dict_get d ''-1.0'' @ ''dB'', ''3'', output_path t]"
  by (simp add: build_cmd_def base_cmd_def insert_metadata_flags_def
      insert_normalize_flags_def)

text \<open>
  C1. The claim: for every combination of \<^verbatim>\<open>preserve_metadata\<close> and \<^verbatim>\<open>normalize\<close>, the
  command has \<^verbatim>\<open>-map_metadata\<close> immediately followed by \<^verbatim>\<open>0\<close>, \<^verbatim>\<open>-id3v2_version\<close> immediately
  followed by \<^verbatim>\<open>3\<close>, and \<^verbatim>\<open>-af\<close> immediately followed by the volume filter. With both
  switches on, the code puts the two normalisation arguments between \<^verbatim>\<open>-id3v2_version\<close>
  and its value \<^verbatim>\<open>3\<close>: the second \<^verbatim>\<open>insert(-2, ...)\<close> pair lands inside the metadata
  arguments that were inserted before. For every task, bit rate and target level, the
  command is then the list below, in which \<^verbatim>\<open>-id3v2_version\<close> is followed by \<^verbatim>\<open>-af\<close>.
\<close>

theorem build_cmd_both_switches_split_id3v2_pair:
  "build_cmd t \<lparr>bitrate = b, preserve_metadata = Some True, extract_cover = e,
       normalize_flag = Some True, target_db = d\<rparr> =
     [''ffmpeg'', ''-i'', input_path t, ''-codec:a'', ''libmp3lame'',
      ''-b:a'', dict_get b ''192k'', ''-q:a'', ''2'', ''-y'',
      ''-map_metadata'', ''0'', ''-id3v2_version'',
      ''-af'', ''volume='' @ dict_get d ''-1.0'' @ ''dB'', ''3'', output_path t]
   \<and> \<not> followed_by ''-id3v2_version'' ''3''
         (build_cmd t \<lparr>bitrate = b, preserve_metadata = Some True, extract_cover = e,
            normalize_flag = Some True, target_db = d\<rparr>)
   \<and> followed_by ''-id3v2_version'' ''-af''
         (build_cmd t \<lparr>bitrate = b, preserve_metadata = Some True, extract_cover = e,
            normalize_flag = Some True, target_db = d\<rparr>)"
  by (simp add: build_cmd_both)


section \<open>Facts about the worker\<close>

lemma length_apply_action [simp]: "length (apply_action a ts) = length ts"
  by (cases a) simp_all

lemma length_final [simp]: "length (final ts as) = length ts"
  by (induction as arbitrary: ts) simp_all

lemma final_append: "final ts (as @ bs) = final (final ts as) bs"
  by (induction as arbitrary: ts) simp_all

lemma apply_action_nth: "i < length ts \<Longrightarrow> apply_action a ts ! i = effect i (ts ! i) a"
  by (cases a) (auto simp: nth_list_update)

lemma final_nth: "i < length ts \<Longrightarrow> final ts as ! i = foldl (effect i) (ts ! i) as"
  by (induction as arbitrary: ts) (simp_all add: apply_action_nth)

lemma effect_other: "about a \<noteq> Some i \<Longrightarrow> effect i t a = t"
  by (cases a) auto

lemma foldl_effect_other: "\<forall>a\<in>set as. about a \<noteq> Some i \<Longrightarrow> foldl (effect i) t as = t"
  by (induction as) (simp_all add: effect_other)

lemma step_ok_refl [simp]: "step_ok t t"
  by (simp add: step_ok_def)



lemma progress_values_append [simp]:
  "progress_values i (as @ bs) = progress_values i as @ progress_values i bs"
  by (induction i as rule: progress_values.induct) simp_all

lemma progress_values_other:
  "\<forall>a\<in>set as. about a \<noteq> Some i \<Longrightarrow> progress_values i as = []"
  by (induction i as rule: progress_values.induct) simp_all


lemma progress_loop_about:
  "a \<in> set (fst (progress_loop rd i c ps)) \<Longrightarrow> about a = Some i"
  by (induction ps arbitrary: c a) (auto simp: split_def Let_def split: if_splits)




lemma progress_loop_no_stop:
  "\<forall>c. rd c \<Longrightarrow>
   progress_loop rd i c ps = (map (\<lambda>p. Emit_progress_updated i p 0) ps, False)"
  by (induction ps arbitrary: c) simp_all

lemma progress_values_ticks [simp]:
  "progress_values i (map (\<lambda>p. Emit_progress_updated i p c) ps) = ps"
  by (induction ps) simp_all

lemma convert_single_about:
  "a \<in> set (fst (convert_single hm cfg e rd i t)) \<Longrightarrow> about a = Some j \<Longrightarrow> j = i"
  by (auto simp: convert_single_def Let_def split_def split: option.splits if_splits proc_outcome.splits
      dest: progress_loop_about)

lemma task_block_about:
  "a \<in> set (task_block hm cfg e rd i t) \<Longrightarrow> about a = Some j \<Longrightarrow> j = i"
  by (auto simp: task_block_def split_def Let_def split: if_splits dest: convert_single_about [of a hm cfg e rd i t j])

lemma run_from_about:
  "a \<in> set (run_from hm cfg env i0 r ts) \<Longrightarrow> about a = Some j \<Longrightarrow> i0 \<le> j"
proof (induction ts arbitrary: i0 r)
  case Nil
  then show ?case by simp
next
  case (Cons t ts)
  from Cons.prems show ?case
    by (auto simp: Let_def split: if_splits dest: task_block_about Cons.IH)
qed

lemma run_from_not_running [simp]: "run_from hm cfg env i0 False ts = []"
  by (cases ts) (simp_all add: is_running_at_def)

lemma convert_single_success:
  "fst (snd (convert_single hm cfg e rd i t)) =
     (conversion_succeeds e \<and> \<not> snd (progress_loop rd i 1 (py_range 0 101 10)))"
  by (simp add: convert_single_def conversion_succeeds_def Let_def split_def
      split: option.splits proc_outcome.splits)







lemma task_block_status:
  "status (foldl (effect i) t0 (task_block hm cfg e rd i t)) =
     (if fst (snd (convert_single hm cfg e rd i t)) then Completed else Failed)"
  by (simp add: task_block_def split_def Let_def)

lemma task_block_started:
  "Emit_conversion_started i \<in> set (task_block hm cfg e rd i t)"
  by (simp add: task_block_def split_def Let_def)

lemma task_block_completed:
  "\<exists>m. Emit_task_completed i (fst (snd (convert_single hm cfg e rd i t))) m
         \<in> set (task_block hm cfg e rd i t)"
  by (auto simp add: task_block_def split_def Let_def)


lemma task_block_other:
  "j \<noteq> i \<Longrightarrow> \<forall>a\<in>set (task_block hm cfg e rd j t). about a \<noteq> Some i"
  using task_block_about by blast

lemma run_from_later:
  "i < i0 \<Longrightarrow> \<forall>a\<in>set (run_from hm cfg env i0 r ts). about a \<noteq> Some i"
  using run_from_about by fastforce


lemma run_from_Cons_running:
  "stop_before (env i0) \<noteq> Some 0 \<Longrightarrow>
   run_from hm cfg env i0 True (t # ts) =
     task_block hm cfg (env i0) (is_running_at True (stop_before (env i0))) i0 t
     @ run_from hm cfg env (Suc i0) (stop_before (env i0) = None) ts"
  by (cases "stop_before (env i0)") (simp_all add: is_running_at_def)

text \<open>A task that the loop reaches with the flag still set: where its iteration stands in the run.\<close>

lemma run_from_split:
  "i0 \<le> i \<Longrightarrow> i < i0 + length ts \<Longrightarrow>
   \<forall>j. i0 \<le> j \<and> j < i \<longrightarrow> stop_before (env j) = None \<Longrightarrow>
   stop_before (env i) \<noteq> Some 0 \<Longrightarrow>
   \<exists>before after.
     run_from hm cfg env i0 True ts =
       before @ task_block hm cfg (env i) (is_running_at True (stop_before (env i))) i (ts ! (i - i0)) @ after
     \<and> (\<forall>a\<in>set before. about a \<noteq> Some i)
     \<and> (\<forall>a\<in>set after. about a \<noteq> Some i)"
proof (induction ts arbitrary: i0)
  case Nil
  then show ?case by simp
next
  case (Cons t ts)
  show ?case
  proof (cases "i = i0")
    case True
    let ?after = "run_from hm cfg env (Suc i0) (stop_before (env i0) = None) ts"
    have "run_from hm cfg env i0 True (t # ts) =
            [] @ task_block hm cfg (env i) (is_running_at True (stop_before (env i))) i ((t # ts) ! (i - i0)) @ ?after"
      using True Cons.prems(4) by (simp add: run_from_Cons_running del: run_from.simps)
    moreover have "\<forall>a\<in>set ?after. about a \<noteq> Some i"
      using True by (intro run_from_later) simp
    ultimately show ?thesis
      by (metis empty_iff list.set(1))
  next
    case False
    with Cons.prems have less: "i0 < i" and none: "stop_before (env i0) = None"
      by auto
    let ?block = "task_block hm cfg (env i0) (is_running_at True (stop_before (env i0))) i0 t"
    have run: "run_from hm cfg env i0 True (t # ts) = ?block @ run_from hm cfg env (Suc i0) True ts"
      using none by (simp add: run_from_Cons_running del: run_from.simps)
    from Cons.IH [of "Suc i0"] Cons.prems less
    obtain before after where rest:
      "run_from hm cfg env (Suc i0) True ts =
         before @ task_block hm cfg (env i) (is_running_at True (stop_before (env i))) i (ts ! (i - Suc i0)) @ after"
      "\<forall>a\<in>set before. about a \<noteq> Some i" "\<forall>a\<in>set after. about a \<noteq> Some i"
      by auto
    have nth: "(t # ts) ! (i - i0) = ts ! (i - Suc i0)"
      using less by (simp add: nth_Cons')
    have "\<forall>a\<in>set (?block @ before). about a \<noteq> Some i"
      using rest(2) task_block_other [of i0 i] less by auto
    moreover have "run_from hm cfg env i0 True (t # ts) =
        (?block @ before) @ task_block hm cfg (env i) (is_running_at True (stop_before (env i))) i ((t # ts) ! (i - i0)) @ after"
      using run rest(1) nth by simp
    ultimately show ?thesis
      using rest(3) by blast
  qed
qed

text \<open>Once \<^verbatim>\<open>stop()\<close> has been called during the iteration of task \<open>k\<close>, no later task is named.\<close>

lemma run_from_stopped_about:
  "i0 \<le> k \<Longrightarrow> \<forall>j. i0 \<le> j \<and> j < k \<longrightarrow> stop_before (env j) = None \<Longrightarrow>
   stop_before (env k) \<noteq> None \<Longrightarrow>
   a \<in> set (run_from hm cfg env i0 True ts) \<Longrightarrow> about a = Some j \<Longrightarrow> j \<le> k"
proof (induction ts arbitrary: i0)
  case Nil
  then show ?case by simp
next
  case (Cons t ts)
  show ?case
  proof (cases "stop_before (env i0) = Some 0")
    case True
    with Cons.prems show ?thesis by (simp add: is_running_at_def)
  next
    case False
    note run = run_from_Cons_running [of env i0 hm cfg t ts, OF False]
    show ?thesis
    proof (cases "i0 = k")
      case True
      with Cons.prems(3) have "(stop_before (env i0) = None) = False"
        by simp
      then have "run_from hm cfg env (Suc i0) (stop_before (env i0) = None) ts = []"
        by (simp only: run_from_not_running)
      with Cons.prems(4) run have "a \<in> set (task_block hm cfg (env i0) (is_running_at True (stop_before (env i0))) i0 t)"
        by (simp del: run_from.simps)
      with Cons.prems(5) True show ?thesis
        using task_block_about by fastforce
    next
      case neq: False
      with Cons.prems have none: "stop_before (env i0) = None" and less: "Suc i0 \<le> k"
        by auto
      from Cons.prems(4) run none
      consider "a \<in> set (task_block hm cfg (env i0) (is_running_at True (stop_before (env i0))) i0 t)"
        | "a \<in> set (run_from hm cfg env (Suc i0) True ts)"
        by auto
      then show ?thesis
      proof cases
        case 1
        with Cons.prems(5) have "j = i0" using task_block_about by fastforce
        with Cons.prems(1) show ?thesis by simp
      next
        case 2
        with Cons.IH [of "Suc i0"] Cons.prems less show ?thesis by auto
      qed
    qed
  qed
qed

lemma run_final_started:
  assumes "i < length ts" "\<forall>j<i. stop_before (env j) = None" "stop_before (env i) \<noteq> Some 0"
  shows "final ts (run hm cfg env ts) ! i =
           foldl (effect i) (ts ! i)
             (task_block hm cfg (env i) (is_running_at True (stop_before (env i))) i (ts ! i))"
proof -
  from run_from_split [of 0 i ts env hm cfg] assms
  obtain before after where split:
    "run hm cfg env ts =
       before @ task_block hm cfg (env i) (is_running_at True (stop_before (env i))) i (ts ! i) @ after"
    "\<forall>a\<in>set before. about a \<noteq> Some i" "\<forall>a\<in>set after. about a \<noteq> Some i"
    by (auto simp: run_def)
  show ?thesis
    using assms(1) split by (simp add: final_nth foldl_effect_other)
qed

lemma run_started_event:
  assumes "i < length ts" "\<forall>j<i. stop_before (env j) = None" "stop_before (env i) \<noteq> Some 0"
  shows "set (task_block hm cfg (env i) (is_running_at True (stop_before (env i))) i (ts ! i))
           \<subseteq> set (run hm cfg env ts)"
proof -
  from run_from_split [of 0 i ts env hm cfg] assms
  obtain before after where
    "run hm cfg env ts =
       before @ task_block hm cfg (env i) (is_running_at True (stop_before (env i))) i (ts ! i) @ after"
    by (auto simp: run_def)
  then show ?thesis by auto
qed

lemma is_running_at_None [simp]: "is_running_at True None = (\<lambda>c. True)"
  by (simp add: is_running_at_def fun_eq_iff)

lemma convert_single_no_stop:
  "fst (snd (convert_single hm cfg e (\<lambda>c. True) i t)) = conversion_succeeds e"
  by (simp add: convert_single_success progress_loop_no_stop)


lemma task_block_shape:
  assumes "makedirs_error e = None"
  shows "\<exists>before after.
     task_block hm cfg e (\<lambda>c. True) i t = before @ Subprocess_run i (build_cmd t cfg) # after
     \<and> progress_values i before = py_range 0 101 10
     \<and> progress_values i after = []"
proof -
  let ?before = "[Emit_conversion_started i, Set_status i Converting,
                  Set_start_time i (clock_start e), Makedirs (dirname (output_path t)),
                  Emit_log_message (''Converting: '' @ basename (input_path t)) ''info'']
                 @ map (\<lambda>p. Emit_progress_updated i p 0) (py_range 0 101 10)"
  have before: "progress_values i ?before = py_range 0 101 10"
    by simp
  have "\<exists>after. task_block hm cfg e (\<lambda>c. True) i t = ?before @ Subprocess_run i (build_cmd t cfg) # after
          \<and> progress_values i after = []"
    using assms
    by (cases "ffmpeg e")
       (simp_all add: task_block_def convert_single_def progress_loop_no_stop Let_def)
  with before show ?thesis by blast
qed

lemmas sample_defs = run_def task_a_def task_b_def env_success_def env_codec_error_def
  env_no_directory_def env_stop_def task_block_def convert_single_def is_running_at_def
  py_range_0_101_10 conversion_succeeds_def


section \<open>Progress of a task during a run\<close>





section \<open>Stopping a run\<close>

text \<open>
  C3. If \<^verbatim>\<open>stop()\<close> is called after task \<open>k\<close> has started and before the next task
  starts (during the iteration of task \<open>k\<close>, after the test at the head of the loop, and
  not during an earlier iteration), then every task up to \<open>k\<close> ends \<open>Completed\<close> or
  \<open>Failed\<close>, task \<open>k\<close> was started, \<^verbatim>\<open>conversion_started\<close> is never emitted for a later
  task, and every later task is left as it was. Tasks are numbered from 0.
\<close>

theorem stop_during_task:
  assumes "k < length ts" and "\<forall>j<k. stop_before (env j) = None"
    and "stop_before (env k) = Some c" and "0 < c"
  shows "(\<forall>i\<le>k. status (final ts (run hm cfg env ts) ! i) = Completed
                \<or> status (final ts (run hm cfg env ts) ! i) = Failed)
       \<and> Emit_conversion_started k \<in> set (run hm cfg env ts)
       \<and> (\<forall>j>k. Emit_conversion_started j \<notin> set (run hm cfg env ts))
       \<and> (\<forall>j. k < j \<and> j < length ts \<longrightarrow> final ts (run hm cfg env ts) ! j = ts ! j)"
proof (intro conjI allI impI)
  fix i assume "i \<le> k"
  with assms have "i < length ts" "\<forall>j<i. stop_before (env j) = None" "stop_before (env i) \<noteq> Some 0"
    by (auto simp: le_less)
  from run_final_started [OF this, of hm cfg]
  show "status (final ts (run hm cfg env ts) ! i) = Completed
          \<or> status (final ts (run hm cfg env ts) ! i) = Failed"
    by (simp add: task_block_status)
next
  have "stop_before (env k) \<noteq> Some 0" using assms(3,4) by simp
  from run_started_event [OF assms(1,2) this, of hm cfg] task_block_started
  show "Emit_conversion_started k \<in> set (run hm cfg env ts)"
    by blast
next
  fix j assume "k < j"
  have later: "\<forall>a\<in>set (run hm cfg env ts). about a \<noteq> Some j"
  proof
    fix a assume "a \<in> set (run hm cfg env ts)"
    then have "about a = Some j \<Longrightarrow> j \<le> k"
      using run_from_stopped_about [of 0 k env a hm cfg ts j] assms(2,3) by (simp add: run_def)
    with \<open>k < j\<close> show "about a \<noteq> Some j" by auto
  qed
  then show "Emit_conversion_started j \<notin> set (run hm cfg env ts)"
    by force
next
  fix j assume "k < j \<and> j < length ts"
  have later: "\<forall>a\<in>set (run hm cfg env ts). about a \<noteq> Some j"
  proof
    fix a assume "a \<in> set (run hm cfg env ts)"
    then have "about a = Some j \<Longrightarrow> j \<le> k"
      using run_from_stopped_about [of 0 k env a hm cfg ts j] assms(2,3) by (simp add: run_def)
    with \<open>k < j \<and> j < length ts\<close> show "about a \<noteq> Some j" by auto
  qed
  with \<open>k < j \<and> j < length ts\<close> show "final ts (run hm cfg env ts) ! j = ts ! j"
    by (simp add: final_nth foldl_effect_other)
qed

text \<open>The theorem for two tasks, with \<^verbatim>\<open>stop()\<close> called during the progress loop of the first.\<close>

theorem stop_during_task_witness:
  "(status (final [task_a, task_b] (run True run_config (\<lambda>i. env_stop 5) [task_a, task_b]) ! 0) = Completed
    \<or> status (final [task_a, task_b] (run True run_config (\<lambda>i. env_stop 5) [task_a, task_b]) ! 0) = Failed)
   \<and> Emit_conversion_started 0 \<in> set (run True run_config (\<lambda>i. env_stop 5) [task_a, task_b])
   \<and> Emit_conversion_started 1 \<notin> set (run True run_config (\<lambda>i. env_stop 5) [task_a, task_b])
   \<and> final [task_a, task_b] (run True run_config (\<lambda>i. env_stop 5) [task_a, task_b]) ! 1 = task_b"
proof -
  have h1: "0 < length [task_a, task_b]" by simp
  have h2: "\<forall>j<(0::nat). stop_before ((\<lambda>i. env_stop 5) j) = None" by simp
  have h3: "stop_before ((\<lambda>i. env_stop 5) 0) = Some 5" by (simp add: env_stop_def)
  have h4: "(0::nat) < 5" by simp
  show ?thesis using stop_during_task [OF h1 h2 h3 h4, of True run_config] by simp
qed


section \<open>Failures stay with their task\<close>

text \<open>
  C4. In a run that is never stopped, every task of the batch is started and comes to
  its end whatever happens to the other tasks: \<^verbatim>\<open>task_completed\<close> is emitted for it, and
  it ends \<open>Completed\<close> if its own output directory can be made and its own external
  command exits with code 0, and \<open>Failed\<close> otherwise (the directory cannot be made, the
  command exits with another code, or the call raises). The failure of one task marks
  that task only and never ends the batch.
\<close>

theorem failure_does_not_abort_batch:
  assumes "\<forall>j. stop_before (env j) = None" and "i < length ts"
  shows "Emit_conversion_started i \<in> set (run hm cfg env ts)
       \<and> (\<exists>m. Emit_task_completed i (conversion_succeeds (env i)) m \<in> set (run hm cfg env ts))
       \<and> status (final ts (run hm cfg env ts) ! i)
           = (if conversion_succeeds (env i) then Completed else Failed)"
proof -
  have pre: "\<forall>j<i. stop_before (env j) = None" "stop_before (env i) \<noteq> Some 0"
    using assms(1) by simp_all
  have rd: "is_running_at True (stop_before (env i)) = (\<lambda>c. True)"
    using assms(1) by simp
  note sub = run_started_event [OF assms(2) pre, of hm cfg, unfolded rd]
  have "Emit_conversion_started i \<in> set (run hm cfg env ts)"
    using sub task_block_started by blast
  moreover have "\<exists>m. Emit_task_completed i (conversion_succeeds (env i)) m \<in> set (run hm cfg env ts)"
    using sub task_block_completed [of i hm cfg "env i" "\<lambda>c. True" "ts ! i"]
    by (auto simp: convert_single_no_stop)
  moreover have "status (final ts (run hm cfg env ts) ! i)
           = (if conversion_succeeds (env i) then Completed else Failed)"
    using run_final_started [OF assms(2) pre, of hm cfg]
    by (simp add: rd task_block_status convert_single_no_stop)
  ultimately show ?thesis by blast
qed

text \<open>The theorem for two tasks of which the first fails: the second is started and completes.\<close>

theorem failure_does_not_abort_batch_witness:
  "Emit_conversion_started 1 \<in> set (run True run_config (\<lambda>i. if i = 0 then env_codec_error else env_success) [task_a, task_b])
   \<and> status (final [task_a, task_b] (run True run_config (\<lambda>i. if i = 0 then env_codec_error else env_success) [task_a, task_b]) ! 0) = Failed
   \<and> status (final [task_a, task_b] (run True run_config (\<lambda>i. if i = 0 then env_codec_error else env_success) [task_a, task_b]) ! 1) = Completed"
proof -
  let ?env = "\<lambda>i::nat. if i = 0 then env_codec_error else env_success"
  have h1: "\<forall>j. stop_before (?env j) = None"
    by (simp add: env_codec_error_def env_success_def)
  have h2: "0 < length [task_a, task_b]" "1 < length [task_a, task_b]" by simp_all
  show ?thesis
    using failure_does_not_abort_batch [OF h1 h2(1), of True run_config] failure_does_not_abort_batch [OF h1 h2(2), of True run_config]
    by (simp add: conversion_succeeds_def env_codec_error_def env_success_def)
qed


section \<open>The simulated progress\<close>

text \<open>
  C10, as amended. For every task that the run reaches without \<^verbatim>\<open>stop()\<close> having been
  called, and whose output directory can be made, the worker emits exactly the progress
  values 0, 10, ..., 100 for that task, all of them before it invokes the external
  command for the task, and none after; this holds whatever the external command then
  does.
\<close>

theorem simulated_progress_before_command:
  assumes "i < length ts" and "\<forall>j\<le>i. stop_before (env j) = None"
    and "makedirs_error (env i) = None"
  shows "\<exists>before after.
     run hm cfg env ts = before @ Subprocess_run i (build_cmd (ts ! i) cfg) # after
     \<and> progress_values i before = [0, 10, 20, 30, 40, 50, 60, 70, 80, 90, 100]
     \<and> progress_values i after = []"
proof -
  have pre: "\<forall>j. 0 \<le> j \<and> j < i \<longrightarrow> stop_before (env j) = None" "stop_before (env i) \<noteq> Some 0"
    and none: "stop_before (env i) = None"
    using assms(2) by simp_all
  from run_from_split [of 0 i ts env hm cfg, OF _ _ pre] assms(1)
  obtain A B where split:
    "run hm cfg env ts = A @ task_block hm cfg (env i) (\<lambda>c. True) i (ts ! i) @ B"
    "\<forall>a\<in>set A. about a \<noteq> Some i" "\<forall>a\<in>set B. about a \<noteq> Some i"
    by (auto simp: run_def none)
  from task_block_shape [OF assms(3), of hm cfg i "ts ! i"]
  obtain C D where block:
    "task_block hm cfg (env i) (\<lambda>c. True) i (ts ! i) = C @ Subprocess_run i (build_cmd (ts ! i) cfg) # D"
    "progress_values i C = py_range 0 101 10" "progress_values i D = []"
    by blast
  have "run hm cfg env ts = (A @ C) @ Subprocess_run i (build_cmd (ts ! i) cfg) # (D @ B)"
    using split(1) block(1) by simp
  moreover have "progress_values i (A @ C) = [0, 10, 20, 30, 40, 50, 60, 70, 80, 90, 100]"
    using split(2) block(2) by (simp add: progress_values_other py_range_0_101_10)
  moreover have "progress_values i (D @ B) = []"
    using split(3) block(3) by (simp add: progress_values_other)
  ultimately show ?thesis by blast
qed

text \<open>The theorem for the second of two tasks, both of whose commands fail.\<close>

theorem simulated_progress_before_command_witness:
  "\<exists>before after.
     run True run_config (\<lambda>i. env_codec_error) [task_a, task_b]
       = before @ Subprocess_run 1 (build_cmd task_b run_config) # after
     \<and> progress_values 1 before = [0, 10, 20, 30, 40, 50, 60, 70, 80, 90, 100]
     \<and> progress_values 1 after = []"
proof -
  have h1: "1 < length [task_a, task_b]" by simp
  have h2: "\<forall>j\<le>1. stop_before ((\<lambda>i. env_codec_error) j) = None"
    by (simp add: env_codec_error_def env_success_def)
  have h3: "makedirs_error ((\<lambda>i. env_codec_error) 1) = None"
    by (simp add: env_codec_error_def env_success_def)
  show ?thesis using simulated_progress_before_command [OF h1 h2 h3, of True run_config] by simp
qed

text \<open>
  C10 as stated fails: it speaks of every task processed without the stop signal. A
  task whose output directory cannot be made is processed (it is started and ends
  \<open>Failed\<close>) and no progress value is emitted for it.
\<close>

theorem no_progress_when_makedirs_fails:
  "stop_before env_no_directory = None
   \<and> Emit_conversion_started 0 \<in> set (run True run_config (\<lambda>i. env_no_directory) [task_a])
   \<and> progress_values 0 (run True run_config (\<lambda>i. env_no_directory) [task_a]) = []"
  by (simp add: run_def env_no_directory_def env_success_def task_block_def convert_single_def)

section \<open>Facts about the task list of the main window\<close>







lemma effect_input_path [simp]: "input_path (effect i t a) = input_path t"
  by (cases a) simp_all

lemma foldl_effect_input_path [simp]: "input_path (foldl (effect i) t as) = input_path t"
  by (induction as arbitrary: t) simp_all




lemma window_with_a_eq:
  "window_with_a = \<lparr>file_list = [''/videos/a.mp4''],
      tasks = [\<lparr>input_path = ''/videos/a.mp4'', output_path = ''/videos/a.mp3'',
                status = Pending, progress = 0, error_message = [], start_time = None,
                end_time = None, file_size = 500000\<rparr>],
      add_files_btn_enabled = True, add_folder_btn_enabled = True,
      clear_list_btn_enabled = True, worker_running = False\<rparr>"
  by (simp add: window_with_a_def add_file_to_list_def ConversionTask_init_def
      initial_window_def sample_os_def Let_def)

lemma running_window_eq:
  "running_window = \<lparr>file_list = [''/videos/a.mp4''],
      tasks = [\<lparr>input_path = ''/videos/a.mp4'', output_path = ''/music/a.mp3'',
                status = Pending, progress = 0, error_message = [], start_time = None,
                end_time = None, file_size = 500000\<rparr>],
      add_files_btn_enabled = False, add_folder_btn_enabled = False,
      clear_list_btn_enabled = False, worker_running = True\<rparr>"
  by (simp add: running_window_def window_with_a_eq start_conversion_def
      sample_output_name_def basename_def Let_def)


section \<open>Adding a file\<close>



text \<open>
  C6, as amended. For every path that is not yet in the list and has a file name, adding
  it appends one list item and one task for it, whether or not a file exists at the
  path: the task's size is the size in bytes of the file at that moment when there is
  one, and 0 when there is none. No error is reported for a missing file.
\<close>

theorem add_unlisted_path:
  assumes "p \<notin> set (file_list mw)" and "with_suffix_mp3 os p = Some out"
  shows "add_file_to_list os p mw =
     (Appended,
      mw\<lparr>file_list := file_list mw @ [p],
         tasks := tasks mw @
           [\<lparr>input_path = p, output_path = out, status = Pending, progress = 0,
             error_message = [], start_time = None, end_time = None,
             file_size = (case getsize os p of Some n \<Rightarrow> n | None \<Rightarrow> 0)\<rparr>]\<rparr>)"
  using assms by (simp add: add_file_to_list_def ConversionTask_init_def Let_def)

text \<open>The theorem for the sample video of 500000 bytes, added to the empty window.\<close>

theorem add_unlisted_path_witness:
  "add_file_to_list sample_os ''/videos/a.mp4'' initial_window = (Appended, window_with_a)
   \<and> map file_size (tasks window_with_a) = [500000]"
proof -
  have h1: "''/videos/a.mp4'' \<notin> set (file_list initial_window)"
    by (simp add: initial_window_def)
  have h2: "with_suffix_mp3 sample_os ''/videos/a.mp4'' = Some ''/videos/a.mp3''"
    by (simp add: sample_os_def)
  show ?thesis
    using add_unlisted_path [OF h1 h2]
    by (simp add: window_with_a_eq initial_window_def sample_os_def)
qed

text \<open>
  C6 as stated fails: it says that for a path whose file does not exist, adding reports a
  file access error and adds no task. A path with no file behind it is added as a task
  of size 0.
\<close>

theorem missing_file_is_added_with_size_0:
  "getsize sample_os ''/videos/missing.mp4'' = None
   \<and> fst (add_file_to_list sample_os ''/videos/missing.mp4'' initial_window) = Appended
   \<and> map input_path (tasks (snd (add_file_to_list sample_os ''/videos/missing.mp4'' initial_window)))
       = [''/videos/missing.mp4'']
   \<and> map file_size (tasks (snd (add_file_to_list sample_os ''/videos/missing.mp4'' initial_window)))
       = [0]"
  by (simp add: add_file_to_list_def ConversionTask_init_def initial_window_def sample_os_def Let_def)


section \<open>Clearing the list during a run\<close>

text \<open>
  C5. The claim: clearing while a run is in progress is rejected and leaves the task
  list unchanged. Below, \<open>running_window\<close> is the window after the sample video was added
  and \<^verbatim>\<open>_start_conversion\<close> has started the worker: the Clear List button is disabled, so
  a click on it changes nothing, but the menu action and the tool bar action still call
  \<^verbatim>\<open>_clear_list\<close>, which has no test of its own, and after the answer Yes the task list
  is empty while the worker is running.
\<close>

theorem clear_while_running_empties_task_list:
  "worker_running running_window
   \<and> \<not> clear_list_btn_enabled running_window
   \<and> map input_path (tasks running_window) = [''/videos/a.mp4'']
   \<and> tasks (trigger_clear Clear_menu_action True running_window) = []
   \<and> tasks (trigger_clear Clear_toolbar_action True running_window) = []
   \<and> trigger_clear Clear_button True running_window = running_window"
  by (simp add: running_window_eq trigger_clear_def clear_list_def)

section \<open>Facts about the settings\<close>

lemma valid_sample_settings: "valid_settings sample_settings"
  by (simp add: valid_settings_def sample_settings_def AppConfig_fields_def AppConfig_types_def)

lemma field_not_special:
  "key \<in> set AppConfig_fields \<Longrightarrow> setattr d key v = Inr (AList.update key v d)"
  by (auto simp: AppConfig_fields_def setattr_def)

lemma field_hasattr: "key \<in> set AppConfig_fields \<Longrightarrow> hasattr d key"
  by (simp add: hasattr_def)

lemma load_items_field [simp]:
  "key \<in> set AppConfig_fields \<Longrightarrow>
   load_items ((key, v) # items) d = load_items items (AList.update key v d)"
  by (simp add: field_not_special field_hasattr)

lemma update_after_prefix:
  "key \<notin> fst ` set pre \<Longrightarrow>
   AList.update key v (pre @ (key, w) # rest) = pre @ (key, v) # rest"
  by (induction pre) auto

lemma load_items_same_keys:
  "map fst items = map fst d \<Longrightarrow> distinct (map fst pre @ map fst d) \<Longrightarrow>
   set (map fst d) \<subseteq> set AppConfig_fields \<Longrightarrow>
   load_items items (pre @ d) = pre @ items"
proof (induction items arbitrary: pre d)
  case Nil
  then show ?case by simp
next
  case (Cons item items)
  obtain key v where item: "item = (key, v)"
    by (cases item)
  from Cons.prems(1) item obtain w d' where d: "d = (key, w) # d'" and keys: "map fst items = map fst d'"
    by (cases d) auto
  have field: "key \<in> set AppConfig_fields" and fresh: "key \<notin> fst ` set pre"
    using Cons.prems(2,3) d by auto
  have "load_items (item # items) (pre @ d) = load_items items ((pre @ [(key, v)]) @ d')"
    using field fresh by (simp add: item d update_after_prefix field_hasattr field_not_special)
  also have "\<dots> = (pre @ [(key, v)]) @ items"
    using keys Cons.prems(2,3) d by (intro Cons.IH) auto
  finally show ?case by (simp add: item)
qed

lemma AppConfig_keys: "map fst (AppConfig converted_audio) = AppConfig_fields"
  by (simp add: AppConfig_def AppConfig_fields_def)

lemma AppConfig_fields_distinct: "distinct AppConfig_fields"
  by (simp add: AppConfig_fields_def)

lemma load_settings_no_document:
  "load_settings Missing d = d" "load_settings Unreadable d = d"
  by (simp_all add: load_settings_def)

lemma unknown_key_skipped:
  "plain_key key \<Longrightarrow> key \<notin> set AppConfig_fields \<Longrightarrow>
   fst ` set d \<subseteq> set AppConfig_fields \<Longrightarrow>
   load_items ((key, v) # items) d = load_items items d"
proof -
  assume "plain_key key" and "key \<notin> set AppConfig_fields"
    and "fst ` set d \<subseteq> set AppConfig_fields"
  then have "map_of d key = None"
    by (metis map_of_eq_None_iff subsetD)
  with \<open>plain_key key\<close> \<open>key \<notin> set AppConfig_fields\<close> show ?thesis
    by (simp add: hasattr_def plain_key_def)
qed

lemma update_keys_in_fields:
  "key \<in> set AppConfig_fields \<Longrightarrow> fst ` set d \<subseteq> set AppConfig_fields \<Longrightarrow>
   fst ` set (AList.update key v d) \<subseteq> set AppConfig_fields"
  by (simp add: dom_update)

lemma load_items_plain:
  "\<forall>key\<in>fst ` set items. plain_key key \<Longrightarrow> fst ` set d \<subseteq> set AppConfig_fields \<Longrightarrow>
   load_items items d =
     fold (\<lambda>(key, v). AList.update key v)
       (filter (\<lambda>(key, v). key \<in> set AppConfig_fields) items) d"
proof (induction items arbitrary: d)
  case Nil
  then show ?case by simp
next
  case (Cons item items)
  obtain key v where item: "item = (key, v)"
    by (cases item)
  show ?case
  proof (cases "key \<in> set AppConfig_fields")
    case True
    with Cons.prems Cons.IH [of "AList.update key v d"] show ?thesis
      by (simp add: item update_keys_in_fields load_items_field del: load_items.simps)
  next
    case False
    with Cons.prems Cons.IH [of d] show ?thesis
      by (simp add: item unknown_key_skipped del: load_items.simps)
  qed
qed

lemma fold_update_absent:
  "key \<notin> fst ` set items \<Longrightarrow>
   map_of (fold (\<lambda>(k, v). AList.update k v) items d) key = map_of d key"
  by (induction items arbitrary: d) (auto simp: update_conv')

lemma load_items_absent_key:
  assumes "\<forall>key\<in>fst ` set items. plain_key key" and "fst ` set d \<subseteq> set AppConfig_fields"
    and "key \<notin> fst ` set items"
  shows "map_of (load_items items d) key = map_of d key"
proof -
  have "key \<notin> fst ` set (filter (\<lambda>(key, v). key \<in> set AppConfig_fields) items)"
    using assms(3) by auto
  then show ?thesis
    using assms(1,2) by (simp add: load_items_plain fold_update_absent)
qed


section \<open>Saving and loading again\<close>

text \<open>
  C8. For every valid settings object, saving it (the file can be opened for writing)
  and then loading the file into a fresh \<^verbatim>\<open>AppConfig()\<close>, as the program does when it
  starts, gives an object with exactly the saved attributes and values.
\<close>

theorem settings_round_trip:
  assumes "valid_settings d"
  shows "load_settings (save_settings True d file) (AppConfig converted_audio) = d"
proof -
  from assms have keys: "map fst d = map fst (AppConfig converted_audio)"
    by (simp add: valid_settings_def AppConfig_keys)
  have "load_items d ([] @ AppConfig converted_audio) = [] @ d"
    using keys by (intro load_items_same_keys) (simp_all add: AppConfig_keys AppConfig_fields_distinct)
  then show ?thesis
    by (simp add: save_settings_def load_settings_def)
qed

text \<open>The theorem for the sample settings, every field of which differs from its default
  where the type allows it.\<close>

theorem settings_round_trip_witness:
  "valid_settings sample_settings
   \<and> load_settings (save_settings True sample_settings Missing) (AppConfig ''/home/u/ConvertedAudio'')
       = sample_settings"
  using settings_round_trip [OF valid_sample_settings] valid_sample_settings by simp


section \<open>Loading a document with a key that is no field\<close>

text \<open>
  C9. The claim: loading never fails fatally, keys that are not fields are ignored,
  fields absent from the document keep their defaults, and an unreadable file leaves
  every field at its default. The key \<^verbatim>\<open>__class__\<close> is no field, yet \<^verbatim>\<open>hasattr\<close> is true
  for it; \<^verbatim>\<open>setattr\<close> then raises, the bare \<^verbatim>\<open>except\<close> swallows the exception, and the
  rest of the document is never read. For the document
  \<^verbatim>\<open>{"__class__": 1, "theme": "light"}\<close> the configuration stays as it was, with the theme
  \<^verbatim>\<open>dark\<close>, whereas the document \<^verbatim>\<open>{"theme": "light"}\<close> sets the theme \<^verbatim>\<open>light\<close>: the key
  that is no field is not ignored. For documents whose keys are all plain the claim
  holds (\<open>load_items_plain\<close>, \<open>load_items_absent_key\<close>, \<open>load_settings_no_document\<close>, and
  \<open>load_settings_plain_document\<close> below).
\<close>

theorem load_settings_class_key_drops_theme:
  "load_settings (Parsed (JObj [(''__class__'', JInt 1), (''theme'', JStr ''light'')]))
       (AppConfig converted_audio)
     = AppConfig converted_audio
   \<and> getattr converted_audio
         (load_settings (Parsed (JObj [(''__class__'', JInt 1), (''theme'', JStr ''light'')]))
            (AppConfig converted_audio)) ''theme''
       = Some (JStr ''dark'')
   \<and> getattr converted_audio
         (load_settings (Parsed (JObj [(''theme'', JStr ''light'')])) (AppConfig converted_audio))
         ''theme''
       = Some (JStr ''light'')"
  by (simp add: load_settings_def hasattr_def setattr_def object_attrs_def AppConfig_fields_def
      AppConfig_def getattr_def)

section \<open>Further properties\<close>

text \<open>
  When at most one of the switches \<^verbatim>\<open>preserve_metadata\<close> and \<^verbatim>\<open>normalize\<close> is on, the
  command ends with the output path, names the input path after \<^verbatim>\<open>-i\<close>, the codec
  \<^verbatim>\<open>libmp3lame\<close> after \<^verbatim>\<open>-codec:a\<close> and the bit rate after \<^verbatim>\<open>-b:a\<close>, and each switch that is
  on contributes its flags, each immediately followed by its value.
\<close>

theorem build_cmd_pairs_with_one_switch:
  assumes "\<not> (dict_get (preserve_metadata cfg) True \<and> dict_get (normalize_flag cfg) False)"
  shows "last (build_cmd t cfg) = output_path t
     \<and> followed_by ''-i'' (input_path t) (build_cmd t cfg)
     \<and> followed_by ''-codec:a'' ''libmp3lame'' (build_cmd t cfg)
     \<and> followed_by ''-b:a'' (dict_get (bitrate cfg) ''192k'') (build_cmd t cfg)
     \<and> (dict_get (preserve_metadata cfg) True \<longrightarrow>
          followed_by ''-map_metadata'' ''0'' (build_cmd t cfg)
          \<and> followed_by ''-id3v2_version'' ''3'' (build_cmd t cfg))
     \<and> (dict_get (normalize_flag cfg) False \<longrightarrow>
          followed_by ''-af'' (''volume='' @ dict_get (target_db cfg) ''-1.0'' @ ''dB'')
            (build_cmd t cfg))"
proof (cases "dict_get (preserve_metadata cfg) True")
  case True
  with assms have "\<not> dict_get (normalize_flag cfg) False" by simp
  with True show ?thesis
    by (simp add: build_cmd_metadata_only)
next
  case False
  show ?thesis
  proof (cases "dict_get (normalize_flag cfg) False")
    case True
    with False show ?thesis by (simp add: build_cmd_normalize_only)
  next
    case nf: False
    with False show ?thesis by (simp add: build_cmd_plain base_cmd_def)
  qed
qed

text \<open>The theorem for the first sample task and the configuration of the main window.\<close>

theorem build_cmd_pairs_with_one_switch_witness:
  "build_cmd task_a run_config =
     [''ffmpeg'', ''-i'', ''/videos/a.mp4'', ''-codec:a'', ''libmp3lame'', ''-b:a'', ''192k'',
      ''-q:a'', ''2'', ''-y'', ''-map_metadata'', ''0'', ''-id3v2_version'', ''3'',
      ''/music/a.mp3'']
   \<and> followed_by ''-map_metadata'' ''0'' (build_cmd task_a run_config)
   \<and> followed_by ''-id3v2_version'' ''3'' (build_cmd task_a run_config)
   \<and> last (build_cmd task_a run_config) = ''/music/a.mp3''"
proof -
  have h: "\<not> (dict_get (preserve_metadata run_config) True \<and> dict_get (normalize_flag run_config) False)"
    by (simp add: run_config_def)
  have cmd: "build_cmd task_a run_config =
     [''ffmpeg'', ''-i'', ''/videos/a.mp4'', ''-codec:a'', ''libmp3lame'', ''-b:a'', ''192k'',
      ''-q:a'', ''2'', ''-y'', ''-map_metadata'', ''0'', ''-id3v2_version'', ''3'',
      ''/music/a.mp3'']"
    by (simp add: build_cmd_metadata_only run_config_def task_a_def)
  show ?thesis
    using build_cmd_pairs_with_one_switch [OF h, of task_a] cmd by (simp add: run_config_def task_a_def)
qed

lemma count_two_statuses:
  "\<forall>t\<in>set ts. status t = Completed \<or> status t = Failed \<Longrightarrow>
   length (filter (\<lambda>t. status t = Completed) ts) + length (filter (\<lambda>t. status t = Failed) ts)
     = length ts"
  by (induction ts) auto

text \<open>
  After a run that is never stopped, the number of tasks that are \<open>Completed\<close> and the
  number that are \<open>Failed\<close>, which \<^verbatim>\<open>_on_conversion_finished\<close> reports, add up to the number
  of tasks.
\<close>

theorem run_counts_add_up:
  assumes "\<forall>j. stop_before (env j) = None"
  shows "length (filter (\<lambda>t. status t = Completed) (final ts (run hm cfg env ts)))
       + length (filter (\<lambda>t. status t = Failed) (final ts (run hm cfg env ts)))
       = length ts"
proof -
  let ?F = "final ts (run hm cfg env ts)"
  have "status t = Completed \<or> status t = Failed" if "t \<in> set ?F" for t
  proof -
    from that obtain i where i: "i < length ts" and t: "t = ?F ! i"
      by (metis in_set_conv_nth length_final)
    have "\<forall>j<i. stop_before (env j) = None" "stop_before (env i) \<noteq> Some 0"
      using assms by simp_all
    from run_final_started [OF i this, of hm cfg] show ?thesis
      by (simp add: t task_block_status)
  qed
  then have "length (filter (\<lambda>t. status t = Completed) ?F) + length (filter (\<lambda>t. status t = Failed) ?F)
     = length ?F"
    by (intro count_two_statuses) blast
  then show ?thesis by simp
qed

text \<open>The theorem for two tasks of which the second fails: one of each.\<close>

theorem run_counts_add_up_witness:
  "length (filter (\<lambda>t. status t = Completed)
       (final [task_a, task_b] (run True run_config (\<lambda>i. if i = 1 then env_codec_error else env_success) [task_a, task_b]))) = 1
   \<and> length (filter (\<lambda>t. status t = Failed)
       (final [task_a, task_b] (run True run_config (\<lambda>i. if i = 1 then env_codec_error else env_success) [task_a, task_b]))) = 1"
proof -
  let ?env = "\<lambda>i::nat. if i = 1 then env_codec_error else env_success"
  have h: "\<forall>j. stop_before (?env j) = None"
    by (simp add: env_codec_error_def env_success_def)
  have c: "length (filter (\<lambda>t. status t = Completed)
       (final [task_a, task_b] (run True run_config ?env [task_a, task_b]))) = 1"
    by (simp add: sample_defs)
  show ?thesis
    using run_counts_add_up [OF h, of "[task_a, task_b]" True run_config] c by simp
qed

text \<open>
  For a settings document all of whose keys are plain, loading into a fresh
  \<^verbatim>\<open>AppConfig()\<close> gives what loading only its field items gives (the keys that are no
  fields are ignored), and every attribute that the document does not mention reads as
  its default.
\<close>

theorem load_settings_plain_document:
  assumes "\<forall>key\<in>fst ` set items. plain_key key"
  shows "load_settings (Parsed (JObj items)) (AppConfig converted_audio)
           = load_settings (Parsed (JObj (filter (\<lambda>(key, v). key \<in> set AppConfig_fields) items)))
               (AppConfig converted_audio)
       \<and> (\<forall>key. key \<notin> fst ` set items \<longrightarrow>
             getattr converted_audio (load_settings (Parsed (JObj items)) (AppConfig converted_audio)) key
               = getattr converted_audio (AppConfig converted_audio) key)"
proof -
  have keys: "fst ` set (AppConfig converted_audio) \<subseteq> set AppConfig_fields"
    using AppConfig_keys [of converted_audio] by (metis set_map subset_refl)
  have plain': "\<forall>key\<in>fst ` set (filter (\<lambda>(key, v). key \<in> set AppConfig_fields) items). plain_key key"
    using assms by auto
  have "load_items items (AppConfig converted_audio)
          = load_items (filter (\<lambda>(key, v). key \<in> set AppConfig_fields) items) (AppConfig converted_audio)"
    using load_items_plain [OF assms keys] load_items_plain [OF plain' keys]
    by simp
  moreover have "getattr converted_audio (load_items items (AppConfig converted_audio)) key
               = getattr converted_audio (AppConfig converted_audio) key"
    if "key \<notin> fst ` set items" for key
    using load_items_absent_key [OF assms keys that] by (simp add: getattr_def)
  ultimately show ?thesis
    by (simp add: load_settings_def)
qed

text \<open>The theorem for a document with one unknown key and one field.\<close>

theorem load_settings_plain_document_witness:
  "load_settings (Parsed (JObj [(''volume'', JInt 11), (''theme'', JStr ''light'')])) (AppConfig ''/home/u/ConvertedAudio'')
     = load_settings (Parsed (JObj [(''theme'', JStr ''light'')])) (AppConfig ''/home/u/ConvertedAudio'')
   \<and> getattr ''/home/u/ConvertedAudio''
        (load_settings (Parsed (JObj [(''volume'', JInt 11), (''theme'', JStr ''light'')])) (AppConfig ''/home/u/ConvertedAudio''))
        ''max_concurrent'' = Some (JInt 2)"
proof -
  let ?doc = "[(''volume'', JInt 11), (''theme'', JStr ''light'')]"
  have h: "\<forall>key\<in>fst ` set ?doc. plain_key key"
    by (simp add: plain_key_def object_attrs_def)
  note r = load_settings_plain_document [OF h, of "''/home/u/ConvertedAudio''"]
  have filtered: "filter (\<lambda>(key, v). key \<in> set AppConfig_fields) ?doc = [(''theme'', JStr ''light'')]"
    by (simp add: AppConfig_fields_def)
  have absent: "''max_concurrent'' \<notin> fst ` set ?doc"
    by simp
  have dflt: "getattr ''/home/u/ConvertedAudio'' (AppConfig ''/home/u/ConvertedAudio'') ''max_concurrent''
                = Some (JInt 2)"
    by (simp add: getattr_def AppConfig_def)
  from r [THEN conjunct1] filtered
  have "load_settings (Parsed (JObj ?doc)) (AppConfig ''/home/u/ConvertedAudio'')
     = load_settings (Parsed (JObj [(''theme'', JStr ''light'')])) (AppConfig ''/home/u/ConvertedAudio'')"
    by (simp only:)
  moreover from r [THEN conjunct2, rule_format, OF absent] dflt
  have "getattr ''/home/u/ConvertedAudio''
        (load_settings (Parsed (JObj ?doc)) (AppConfig ''/home/u/ConvertedAudio''))
        ''max_concurrent'' = Some (JInt 2)"
    by (simp only:)
  ultimately show ?thesis by (rule conjI)
qed

end
